theory Spec2Isabelle
  imports Complex_Main "HOL-Library.Sublist"
begin

section \<open>The automated answer-grading engine (assessment/services/grading\_service.py)\<close>

text \<open>
  The development embeds \<^verbatim>\<open>MockGradingService\<close>, \<^verbatim>\<open>LLMGradingService\<close> and
  \<^verbatim>\<open>get_grading_service\<close>. Conventions of the embedding:
  \<^item> Python \<^verbatim>\<open>str\<close> is \<^typ>\<open>string\<close>; the character functions below are those of
    Python on ASCII text (code points below 128), which is the scope of the model.
  \<^item> Python \<^verbatim>\<open>float\<close> is the IEEE double. A double is modelled by the \<^typ>\<open>real\<close> number
    it denotes; \<open>double_of\<close> rounds a real number to the nearest double, a tie going to
    the even significand, and every float operation of the source is the exact operation
    followed by \<open>double_of\<close>. The model covers the finite doubles: overflow to infinity
    and NaN, which need marks or a similarity beyond \<open>10 ^ 300\<close>, are outside it.
  \<^item> A leading underscore of a Python method name is dropped
    (\<^verbatim>\<open>_grade_mcq\<close> is \<open>grade_mcq\<close>).
  \<^item> The TF-IDF vectorizer and the cosine similarity come from a third-party library.
    The body of the \<^verbatim>\<open>try\<close> block that calls them is a parameter \<open>lib\<close>: from the
    vectorizer object held by the service and the two texts it gives the similarity, or
    \<open>None\<close> when the library raises, together with the vectorizer object after the call.
\<close>

subsection \<open>Python string primitives\<close>

definition isspace :: "char \<Rightarrow> bool" where
  "isspace c = (let n = (of_char c :: nat) in (9 \<le> n \<and> n \<le> 13) \<or> (28 \<le> n \<and> n \<le> 32))"

definition isalpha :: "char \<Rightarrow> bool" where
  "isalpha c = (let n = (of_char c :: nat) in (65 \<le> n \<and> n \<le> 90) \<or> (97 \<le> n \<and> n \<le> 122))"

text \<open>The class \<^verbatim>\<open>\w\<close> of the \<^verbatim>\<open>re\<close> module: letters, digits and the underscore.\<close>

definition isword :: "char \<Rightarrow> bool" where
  "isword c = (let n = (of_char c :: nat) in isalpha c \<or> (48 \<le> n \<and> n \<le> 57) \<or> n = 95)"

definition upper_char :: "char \<Rightarrow> char" where
  "upper_char c = (let n = (of_char c :: nat) in if 97 \<le> n \<and> n \<le> 122 then char_of (n - 32) else c)"

definition lower_char :: "char \<Rightarrow> char" where
  "lower_char c = (let n = (of_char c :: nat) in if 65 \<le> n \<and> n \<le> 90 then char_of (n + 32) else c)"

definition upper :: "string \<Rightarrow> string" where
  "upper s = map upper_char s"

definition lower :: "string \<Rightarrow> string" where
  "lower s = map lower_char s"

definition strip :: "string \<Rightarrow> string" where
  "strip s = rev (dropWhile isspace (rev (dropWhile isspace s)))"

text \<open>
  \<^verbatim>\<open>str.split()\<close> without arguments: the maximal runs of non-whitespace characters.
  \<open>split_from w s\<close> scans \<open>s\<close> with the word \<open>w\<close> read so far.
\<close>

fun split_from :: "string \<Rightarrow> string \<Rightarrow> string list" where
  "split_from w [] = (if w = [] then [] else [w])"
| "split_from w (c # cs) =
     (if isspace c then (if w = [] then split_from [] cs else w # split_from [] cs)
      else split_from (w @ [c]) cs)"

definition split :: "string \<Rightarrow> string list" where
  "split s = split_from [] s"

text \<open>\<^verbatim>\<open>" ".join(parts)\<close>.\<close>

fun join_spaces :: "string list \<Rightarrow> string" where
  "join_spaces [] = []"
| "join_spaces [p] = p"
| "join_spaces (p # q # ps) = p @ '' '' @ join_spaces (q # ps)"

text \<open>The decimal numeral of a natural number, as an f-string prints an \<^verbatim>\<open>int\<close>.\<close>

fun str_nat :: "nat \<Rightarrow> string" where
  "str_nat n = (if n < 10 then [char_of (48 + n)] else str_nat (n div 10) @ [char_of (48 + n mod 10)])"

declare str_nat.simps [simp del]

text \<open>
  \<^verbatim>\<open>re.findall(r"\b[a-zA-Z]{4,}\b", s)\<close>, scanning \<open>s\<close> from the left; \<open>prev\<close> tells
  whether the character before the current position is a word character. A match
  starts where a letter follows a non-word character (or the start): the greedy run of
  letters must have four characters or more and end at a word boundary, which no shorter
  run does, since the character after a shorter run is a letter. After a match the scan
  goes on behind it; after a failure it moves one character on.
\<close>

function findall_words :: "bool \<Rightarrow> string \<Rightarrow> string list" where
  "findall_words prev [] = []"
| "findall_words prev (c # cs) =
     (if \<not> prev \<and> isalpha c then
        (let run = takeWhile isalpha (c # cs); rest = dropWhile isalpha (c # cs)
         in if 4 \<le> length run \<and> (case rest of [] \<Rightarrow> True | r # _ \<Rightarrow> \<not> isword r)
            then run # findall_words True rest
            else findall_words (isword c) cs)
      else findall_words (isword c) cs)"
  by pat_completeness auto
termination
  by (relation "measure (\<lambda>(prev, s). length s)")
     (auto simp: less_Suc_eq_le length_dropWhile_le)

subsection \<open>Python floats\<close>

text \<open>The binary exponent of a positive real number: \<open>2 ^ expo x \<le> x < 2 ^ (expo x + 1)\<close>.\<close>

function expo :: "real \<Rightarrow> int" where
  "expo x = (if x \<le> 0 then 0
             else if 2 \<le> x then expo (x / 2) + 1
             else if x < 1 then expo (x * 2) - 1
             else 0)"
  by pat_completeness auto
termination
proof (relation "measure (\<lambda>x. nat \<lceil>x\<rceil> + 2 * nat \<lceil>1 / x\<rceil>)")
  show "wf (measure (\<lambda>x. nat \<lceil>x\<rceil> + 2 * nat \<lceil>1 / x\<rceil>))" by simp
next
  fix x :: real
  assume a: "\<not> x \<le> 0" "2 \<le> x"
  have "x / 2 \<le> x - 1" using a by simp
  then have "\<lceil>x / 2\<rceil> \<le> \<lceil>x - 1\<rceil>" by (rule ceiling_mono)
  then have "\<lceil>x / 2\<rceil> < \<lceil>x\<rceil>" by simp
  moreover have "0 < \<lceil>x\<rceil>" using a le_of_int_ceiling [of x] by linarith
  ultimately have m1: "nat \<lceil>x / 2\<rceil> < nat \<lceil>x\<rceil>" by linarith
  have "1 / (x / 2) \<le> 1" using a by simp
  then have "\<lceil>1 / (x / 2)\<rceil> \<le> 1" by (simp only: ceiling_le_iff of_int_1)
  moreover have "0 < 1 / x" using a by simp
  then have "1 \<le> \<lceil>1 / x\<rceil>" using le_of_int_ceiling [of "1 / x"] by linarith
  ultimately have m2: "nat \<lceil>1 / (x / 2)\<rceil> \<le> nat \<lceil>1 / x\<rceil>" by linarith
  show "(x / 2, x) \<in> measure (\<lambda>x. nat \<lceil>x\<rceil> + 2 * nat \<lceil>1 / x\<rceil>)"
    unfolding in_measure using m1 m2 by linarith
next
  fix x :: real
  assume a: "\<not> x \<le> 0" "\<not> 2 \<le> x" "x < 1"
  have c1: "\<lceil>x\<rceil> = 1" using a by (simp add: ceiling_eq_iff)
  have y: "1 < 1 / x" using a by simp
  have m: "nat \<lceil>x * 2\<rceil> + 2 * nat \<lceil>1 / (x * 2)\<rceil> < 1 + 2 * nat \<lceil>1 / x\<rceil>"
  proof (cases "x \<le> 1 / 2")
    case True
    then have "\<lceil>x * 2\<rceil> \<le> 1" by (simp add: ceiling_le_iff)
    then have n1: "nat \<lceil>x * 2\<rceil> \<le> 1" by linarith
    have "2 \<le> 1 / x" using True a by (simp add: field_simps)
    then have "1 / (x * 2) \<le> 1 / x - 1" using a by (simp add: field_simps)
    then have "\<lceil>1 / (x * 2)\<rceil> \<le> \<lceil>1 / x - 1\<rceil>" by (rule ceiling_mono)
    then have "\<lceil>1 / (x * 2)\<rceil> < \<lceil>1 / x\<rceil>" by simp
    moreover have "0 < \<lceil>1 / x\<rceil>" using y le_of_int_ceiling [of "1 / x"] by linarith
    ultimately have "nat \<lceil>1 / (x * 2)\<rceil> < nat \<lceil>1 / x\<rceil>" by linarith
    then show ?thesis using n1 by linarith
  next
    case False
    have "\<lceil>x * 2\<rceil> \<le> 2" using a by (simp add: ceiling_le_iff)
    then have n1: "nat \<lceil>x * 2\<rceil> \<le> 2" by linarith
    have "1 / (x * 2) \<le> 1" using False a by (simp add: field_simps)
    then have "\<lceil>1 / (x * 2)\<rceil> \<le> 1" by (simp only: ceiling_le_iff of_int_1)
    then have n2: "nat \<lceil>1 / (x * 2)\<rceil> \<le> 1" by linarith
    have "2 \<le> \<lceil>1 / x\<rceil>" using y le_of_int_ceiling [of "1 / x"] by linarith
    then have "2 \<le> nat \<lceil>1 / x\<rceil>" by linarith
    then show ?thesis using n1 n2 by linarith
  qed
  have "nat \<lceil>x\<rceil> = 1" using c1 by simp
  then show "(x * 2, x) \<in> measure (\<lambda>x. nat \<lceil>x\<rceil> + 2 * nat \<lceil>1 / x\<rceil>)"
    unfolding in_measure using m by linarith
qed

declare expo.simps [simp del]

text \<open>Rounding to the nearest integer, a tie going to the even one.\<close>

definition rhe :: "real \<Rightarrow> int" where
  "rhe t = (let f = \<lfloor>t\<rfloor>; d = t - of_int f
            in if d < 1 / 2 then f else if 1 / 2 < d then f + 1
               else if even f then f else f + 1)"

text \<open>
  The double nearest to a real number (round to nearest, ties to even): 53 significant
  bits, the spacing of the subnormal numbers below \<open>2 ^ - 1022\<close>. This is the value of a
  float literal, of \<^verbatim>\<open>float(d)\<close> for a \<^verbatim>\<open>Decimal\<close> and of \<^verbatim>\<open>m / n\<close> for two
  \<^verbatim>\<open>int\<close>s.
\<close>

definition double_of :: "real \<Rightarrow> real" where
  "double_of x =
     (if x = 0 then 0
      else (let e = max (expo \<bar>x\<bar>) (- 1022); u = 2 powi (e - 52)
            in of_int (rhe (x / u)) * u))"

text \<open>The float product and sum.\<close>

definition fmul :: "real \<Rightarrow> real \<Rightarrow> real" where
  "fmul x y = double_of (x * y)"

definition fadd :: "real \<Rightarrow> real \<Rightarrow> real" where
  "fadd x y = double_of (x + y)"

text \<open>
  \<^verbatim>\<open>round(x, 2)\<close> of a float: the exact value of \<open>x\<close> is rounded to the nearest multiple of
  \<open>1/100\<close>, a tie going to the even multiple, and the result is the double nearest to that
  decimal number.
\<close>

definition round2 :: "real \<Rightarrow> real" where
  "round2 x = double_of (of_int (rhe (x * 100)) / 100)"

subsection \<open>Questions, grading results and errors\<close>

text \<open>
  The fields of the Django model \<^verbatim>\<open>Question\<close> that the grading engine reads.
  \<open>marks\<close> is a \<^verbatim>\<open>DecimalField\<close> that the engine reads as \<^verbatim>\<open>float(question.marks)\<close>
  only: the field of the record is that float. \<open>grading_criteria\<close> is a JSON object whose
  entry \<^verbatim>\<open>"keywords"\<close>, when present, is a list of strings.
\<close>

record question =
  question_type :: string
  question_text :: string
  marks :: real
  expected_answer :: string
  grading_criteria :: "string \<rightharpoonup> string list"

datatype meta_value = MStr string | MFloat real | MInt nat

text \<open>The dictionary returned by \<^verbatim>\<open>grade_answer\<close>; its metadata in insertion order.\<close>

record grading_result =
  score :: real
  feedback :: string
  is_correct :: bool
  metadata :: "(string \<times> meta_value) list"

datatype error = NotImplementedError string

text \<open>The library call inside \<^verbatim>\<open>_calculate_similarity\<close>, on a vectorizer object \<open>'v\<close>.\<close>

type_synonym 'v similarity_lib = "'v \<Rightarrow> string \<Rightarrow> string \<Rightarrow> real option \<times> 'v"

subsection \<open>MockGradingService\<close>

definition normalize_text :: "string \<Rightarrow> string" where
  "normalize_text text = upper (strip text)"

definition grade_mcq :: "question \<Rightarrow> string \<Rightarrow> grading_result" where
  "grade_mcq q answer_text =
     (let expected = normalize_text (expected_answer q);
          submitted = normalize_text answer_text;
          correct = (expected = submitted)
      in \<lparr>score = (if correct then marks q else 0),
          feedback = (if correct then ''Correct answer!''
                      else ''Incorrect. Expected: '' @ expected_answer q),
          is_correct = correct,
          metadata = [(''grading_method'', MStr ''exact_match''),
                      (''expected'', MStr expected),
                      (''submitted'', MStr submitted)]\<rparr>)"

text \<open>
  The loop filling \<^verbatim>\<open>word_freq\<close>: \<^verbatim>\<open>word_freq[word] = word_freq.get(word, 0) + 1\<close>.
  The dictionary is an association list in insertion order: a new key goes to the end,
  a known key keeps its place.
\<close>

fun dict_get :: "(string \<times> nat) list \<Rightarrow> string \<Rightarrow> nat \<Rightarrow> nat" where
  "dict_get [] k d = d"
| "dict_get ((k', v) # kvs) k d = (if k' = k then v else dict_get kvs k d)"

fun dict_set :: "(string \<times> nat) list \<Rightarrow> string \<Rightarrow> nat \<Rightarrow> (string \<times> nat) list" where
  "dict_set [] k v = [(k, v)]"
| "dict_set ((k', v') # kvs) k v = (if k' = k then (k, v) # kvs else (k', v') # dict_set kvs k v)"

fun count_words :: "(string \<times> nat) list \<Rightarrow> string list \<Rightarrow> (string \<times> nat) list" where
  "count_words word_freq [] = word_freq"
| "count_words word_freq (word # ws) =
     count_words (dict_set word_freq word (dict_get word_freq word 0 + 1)) ws"

text \<open>
  \<^verbatim>\<open>sorted(items, key=lambda x: x[1], reverse=True)\<close>: a stable sort by descending
  frequency (items of equal frequency keep their order).
\<close>

definition sorted_by_freq_desc :: "(string \<times> nat) list \<Rightarrow> (string \<times> nat) list" where
  "sorted_by_freq_desc items = sort_key (\<lambda>x. - int (snd x)) items"

definition extract_keywords :: "string \<Rightarrow> nat \<Rightarrow> string list" where
  "extract_keywords text top_n =
     (let words = findall_words False (lower text);
          word_freq = count_words [] words;
          sorted_words = sorted_by_freq_desc word_freq
      in map fst (take top_n sorted_words))"

definition calculate_keyword_score :: "question \<Rightarrow> string \<Rightarrow> real" where
  "calculate_keyword_score q answer_text =
     (let keywords = (case grading_criteria q ''keywords'' of None \<Rightarrow> [] | Some ks \<Rightarrow> ks);
          keywords = (if keywords = [] then extract_keywords (expected_answer q) 5 else keywords)
      in if keywords = [] then 1 / 2
         else (let answer_lower = lower answer_text;
                   matched = length (filter (\<lambda>kw. sublist (lower kw) answer_lower) keywords)
               in if keywords \<noteq> [] then real matched / real (length keywords) else 1 / 2))"

definition word_overlap :: "string \<Rightarrow> string \<Rightarrow> real" where
  "word_overlap expected submitted =
     (let expected_words = set (split (lower expected));
          submitted_words = set (split (lower submitted))
      in if expected_words = {} then 0
         else real (card (expected_words \<inter> submitted_words)) / real (card expected_words))"

definition calculate_similarity ::
    "'v similarity_lib \<Rightarrow> 'v \<Rightarrow> string \<Rightarrow> string \<Rightarrow> real \<times> 'v" where
  "calculate_similarity lib vectorizer expected submitted =
     (if strip expected = [] \<or> strip submitted = [] then (0, vectorizer)
      else (case lib vectorizer expected submitted of
              (Some similarity, vectorizer') \<Rightarrow> (similarity, vectorizer')
            | (None, vectorizer') \<Rightarrow> (word_overlap expected submitted, vectorizer')))"

definition calculate_length_score :: "string \<Rightarrow> real" where
  "calculate_length_score text =
     (let word_count = length (split text)
      in if word_count < 50 then double_of (3 / 10)
         else if word_count < 100 then double_of (6 / 10)
         else if word_count < 200 then double_of (9 / 10)
         else 1)"

definition generate_feedback :: "real \<Rightarrow> real \<Rightarrow> real \<Rightarrow> string" where
  "generate_feedback combined keyword similarity =
     (if double_of (9 / 10) \<le> combined then ''Excellent answer! Well done.''
      else if double_of (7 / 10) \<le> combined then ''Good answer. You covered the main points.''
      else if double_of (5 / 10) \<le> combined then
        ''Partial credit. Your answer covers some key concepts but could be improved.''
      else ''Your answer needs improvement. Please review the key concepts.'')"

definition generate_detailed_feedback ::
    "real \<Rightarrow> real \<Rightarrow> real \<Rightarrow> real \<Rightarrow> string \<Rightarrow> string" where
  "generate_detailed_feedback combined len keyword similarity answer =
     (let parts1 = [if double_of (8 / 10) \<le> combined then ''Excellent comprehensive answer!''
                    else if double_of (6 / 10) \<le> combined
                    then ''Good answer with room for improvement.''
                    else ''Your answer needs significant improvement.''];
          word_count = length (split answer);
          parts2 = (if len < double_of (6 / 10)
                    then parts1 @ [''Consider expanding your answer (current: '' @ str_nat word_count
                                   @ '' words).'']
                    else parts1);
          parts3 = (if keyword < double_of (5 / 10)
                    then parts2 @ [''Include more key concepts from the topic.'']
                    else parts2);
          parts4 = (if similarity < double_of (4 / 10)
                    then parts3 @ [''Your answer could align better with the expected content.'']
                    else parts3)
      in join_spaces parts4)"

text \<open>
  The keyword score and the fallback similarity are quotients of two \<^verbatim>\<open>int\<close>s, for which
  \<open>calculate_keyword_score\<close> and \<open>word_overlap\<close> give the exact quotient; Python's division
  returns the double nearest to it, and \<^verbatim>\<open>float(similarity)\<close> is a double. The grading
  strategies take these doubles (\<open>double_of\<close>) and compute with the float operations.
\<close>

definition grade_short_answer ::
    "'v similarity_lib \<Rightarrow> 'v \<Rightarrow> question \<Rightarrow> string \<Rightarrow> grading_result \<times> 'v" where
  "grade_short_answer lib vectorizer q answer_text =
     (let keyword_score = double_of (calculate_keyword_score q answer_text);
          (similarity, vectorizer') =
             calculate_similarity lib vectorizer (expected_answer q) answer_text;
          similarity_score = double_of similarity;
          combined_score = fadd (fmul (double_of (6 / 10)) keyword_score)
                                (fmul (double_of (4 / 10)) similarity_score);
          final_score = fmul (marks q) combined_score;
          correct = (double_of (7 / 10) \<le> combined_score)
      in (\<lparr>score = round2 final_score,
           feedback = generate_feedback combined_score keyword_score similarity_score,
           is_correct = correct,
           metadata = [(''grading_method'', MStr ''keyword_similarity''),
                       (''keyword_score'', MFloat (round2 keyword_score)),
                       (''similarity_score'', MFloat (round2 similarity_score)),
                       (''combined_score'', MFloat (round2 combined_score))]\<rparr>,
          vectorizer'))"

definition grade_long_answer ::
    "'v similarity_lib \<Rightarrow> 'v \<Rightarrow> question \<Rightarrow> string \<Rightarrow> grading_result \<times> 'v" where
  "grade_long_answer lib vectorizer q answer_text =
     (let length_score = calculate_length_score answer_text;
          keyword_score = double_of (calculate_keyword_score q answer_text);
          (similarity, vectorizer') =
             calculate_similarity lib vectorizer (expected_answer q) answer_text;
          similarity_score = double_of similarity;
          combined_score =
             fadd (fadd (fmul (double_of (3 / 10)) length_score)
                        (fmul (double_of (3 / 10)) keyword_score))
                  (fmul (double_of (4 / 10)) similarity_score);
          final_score = fmul (marks q) combined_score;
          correct = (double_of (6 / 10) \<le> combined_score)
      in (\<lparr>score = round2 final_score,
           feedback = generate_detailed_feedback combined_score length_score keyword_score
                        similarity_score answer_text,
           is_correct = correct,
           metadata = [(''grading_method'', MStr ''comprehensive''),
                       (''length_score'', MFloat (round2 length_score)),
                       (''keyword_score'', MFloat (round2 keyword_score)),
                       (''similarity_score'', MFloat (round2 similarity_score)),
                       (''combined_score'', MFloat (round2 combined_score)),
                       (''word_count'', MInt (length (split answer_text)))]\<rparr>,
          vectorizer'))"

text \<open>\<^verbatim>\<open>MockGradingService.grade_answer\<close>: the result and the vectorizer after the call.\<close>

definition grade_answer ::
    "'v similarity_lib \<Rightarrow> 'v \<Rightarrow> question \<Rightarrow> string \<Rightarrow> grading_result \<times> 'v" where
  "grade_answer lib vectorizer q answer_text =
     (if question_type q = ''MCQ'' \<or> question_type q = ''TRUE_FALSE''
      then (grade_mcq q answer_text, vectorizer)
      else if question_type q = ''SHORT''
      then grade_short_answer lib vectorizer q answer_text
      else grade_long_answer lib vectorizer q answer_text)"

subsection \<open>The services and their factory\<close>

text \<open>
  A service object is a \<^verbatim>\<open>MockGradingService\<close> holding its vectorizer or an
  \<^verbatim>\<open>LLMGradingService\<close> holding \<^verbatim>\<open>api_key\<close> (\<open>None\<close> by default) and \<^verbatim>\<open>model\<close>.
\<close>

datatype 'v grading_service =
  MockGradingService 'v
| LLMGradingService "string option" string

text \<open>
  Calling the method \<^verbatim>\<open>grade_answer\<close> of a service object: the error raised, or the
  result and the service object after the call.
\<close>

fun service_grade_answer ::
    "'v similarity_lib \<Rightarrow> 'v grading_service \<Rightarrow> question \<Rightarrow> string
       \<Rightarrow> error + (grading_result \<times> 'v grading_service)" where
  "service_grade_answer lib (MockGradingService vectorizer) q answer_text =
     (case grade_answer lib vectorizer q answer_text of
        (r, vectorizer') \<Rightarrow> Inr (r, MockGradingService vectorizer'))"
| "service_grade_answer lib (LLMGradingService api_key model) q answer_text =
     Inl (NotImplementedError ''LLM grading service not implemented'')"

text \<open>
  \<^verbatim>\<open>get_grading_service(service_type="mock")\<close>: the argument is \<open>None\<close> when the
  caller omits it. \<open>tfidf\<close> is the object that \<^verbatim>\<open>TfidfVectorizer(stop_words="english")\<close>
  constructs.
\<close>

definition get_grading_service :: "'v \<Rightarrow> string option \<Rightarrow> 'v grading_service" where
  "get_grading_service tfidf arg =
     (let service_type = (case arg of None \<Rightarrow> ''mock'' | Some s \<Rightarrow> s)
      in if service_type = ''mock'' then MockGradingService tfidf
         else if service_type = ''llm'' then LLMGradingService None ''gpt-4''
         else MockGradingService tfidf)"

subsection \<open>The keyword score as the specification words it\<close>

text \<open>The maximal runs of word characters of a text.\<close>

function word_runs :: "string \<Rightarrow> string list" where
  "word_runs [] = []"
| "word_runs (c # cs) =
     (if isword c then takeWhile isword (c # cs) # word_runs (dropWhile isword (c # cs))
      else word_runs cs)"
  by pat_completeness auto
termination
  by (relation "measure length") (auto simp: less_Suc_eq_le length_dropWhile_le)

text \<open>An alphabetic word of length at least four.\<close>

definition alphabetic_word :: "string \<Rightarrow> bool" where
  "alphabetic_word w = (list_all isalpha w \<and> 4 \<le> length w)"

text \<open>The distinct elements of a list, in the order of their first occurrence.\<close>

definition first_seen :: "'a list \<Rightarrow> 'a list" where
  "first_seen ws = rev (remdups (rev ws))"

text \<open>
  The five most frequent alphabetic words of the lower-cased text: the distinct words in
  first-seen order, sorted stably by descending number of occurrences.
\<close>

definition spec_keywords :: "string \<Rightarrow> string list" where
  "spec_keywords text =
     (let ws = filter alphabetic_word (word_runs (lower text))
      in take 5 (sort_key (\<lambda>w. - int (count_list ws w)) (first_seen ws)))"

definition spec_keyword_score :: "question \<Rightarrow> string \<Rightarrow> real" where
  "spec_keyword_score q answer_text =
     (let configured = (case grading_criteria q ''keywords'' of None \<Rightarrow> [] | Some ks \<Rightarrow> ks);
          keywords = (if configured \<noteq> [] then configured else spec_keywords (expected_answer q))
      in if keywords = [] then 1 / 2
         else real (length (filter (\<lambda>kw. sublist (lower kw) (lower answer_text)) keywords))
                / real (length keywords))"

subsection \<open>A sample similarity library\<close>

text \<open>
  A stand-in for the third-party library, for the instances below: it counts its fits in
  the vectorizer object, raises on two texts that differ beyond case, and gives two texts
  equal up to case the similarity \<open>1 + 2 ^ - 52\<close>, the double \<^verbatim>\<open>1.0000000000000002\<close>
  that a cosine computed in floats can return for a vector and itself.
\<close>

definition fit_count_lib :: "nat similarity_lib" where
  "fit_count_lib fits expected submitted =
     (if lower expected = lower submitted then Some (1 + 1 / 2 ^ 52) else None, Suc fits)"

text \<open>The empty JSON object \<^verbatim>\<open>{}\<close>, the default of \<open>grading_criteria\<close>.\<close>

definition empty_criteria :: "string \<rightharpoonup> string list" where
  "empty_criteria = Map.empty"

section \<open>Properties\<close>

subsection \<open>Exact match\<close>

text \<open>
  C7. For an MCQ or TRUE\_FALSE question, \<open>is_correct\<close> tells whether the expected answer
  and the answer text are equal after stripping and upper-casing, \<open>score\<close> is the marks
  of the question when they are and 0 otherwise, and \<open>feedback\<close> is
  \<^verbatim>\<open>Correct answer!\<close> or \<^verbatim>\<open>Incorrect. Expected: \<close> followed by the unnormalised
  expected answer. With the expected answer \<^verbatim>\<open>B\<close>, the answers \<^verbatim>\<open>b\<close>,
  \<^verbatim>\<open> B \<close> and \<^verbatim>\<open>B\<close> are correct with full marks, and \<^verbatim>\<open>A\<close> is incorrect with
  score 0.
\<close>

theorem grade_answer_exact_match:
  assumes "question_type q = ''MCQ'' \<or> question_type q = ''TRUE_FALSE''"
  shows "is_correct (fst (grade_answer lib v q a))
           = (upper (strip (expected_answer q)) = upper (strip a))
       \<and> score (fst (grade_answer lib v q a))
           = (if upper (strip (expected_answer q)) = upper (strip a) then marks q else 0)
       \<and> feedback (fst (grade_answer lib v q a))
           = (if upper (strip (expected_answer q)) = upper (strip a) then ''Correct answer!''
              else ''Incorrect. Expected: '' @ expected_answer q)
       \<and> (expected_answer q = ''B'' \<longrightarrow>
            (\<forall>a' \<in> {''b'', '' B '', ''B''}.
               is_correct (fst (grade_answer lib v q a'))
               \<and> score (fst (grade_answer lib v q a')) = marks q)
            \<and> \<not> is_correct (fst (grade_answer lib v q ''A''))
            \<and> score (fst (grade_answer lib v q ''A'')) = 0)"
proof -
  have n: "normalize_text ''B'' = ''B''" "normalize_text ''b'' = ''B''"
    "normalize_text '' B '' = ''B''" "normalize_text ''A'' = ''A''"
    by code_simp+
  show ?thesis using assms n
    by (auto simp: grade_answer_def grade_mcq_def Let_def normalize_text_def)
qed

theorem grade_answer_exact_match_witness:
  "is_correct (fst (grade_answer fit_count_lib 0
      \<lparr>question_type = ''MCQ'', question_text = ''Pick one'', marks = 5,
       expected_answer = ''B'', grading_criteria = Map.empty\<rparr> '' b''))
   \<and> score (fst (grade_answer fit_count_lib 0
      \<lparr>question_type = ''MCQ'', question_text = ''Pick one'', marks = 5,
       expected_answer = ''B'', grading_criteria = Map.empty\<rparr> ''A'')) = 0
   \<and> feedback (fst (grade_answer fit_count_lib 0
      \<lparr>question_type = ''TRUE_FALSE'', question_text = ''Is it?'', marks = 1,
       expected_answer = ''True'', grading_criteria = Map.empty\<rparr> ''false''))
       = ''Incorrect. Expected: True''"
proof -
  let ?q = "\<lparr>question_type = ''MCQ'', question_text = ''Pick one'', marks = 5,
       expected_answer = ''B'', grading_criteria = Map.empty\<rparr>"
  let ?t = "\<lparr>question_type = ''TRUE_FALSE'', question_text = ''Is it?'', marks = 1,
       expected_answer = ''True'', grading_criteria = Map.empty\<rparr>"
  have e: "upper (strip ''B'') = upper (strip '' b'')"
    "upper (strip ''True'') \<noteq> upper (strip ''false'')"
    by code_simp+
  have "question_type ?q = ''MCQ'' \<or> question_type ?q = ''TRUE_FALSE''" by simp
  note a = grade_answer_exact_match [OF this, of fit_count_lib 0]
  have "question_type ?t = ''MCQ'' \<or> question_type ?t = ''TRUE_FALSE''" by simp
  note b = grade_answer_exact_match [OF this, of fit_count_lib 0 "''false''"]
  show ?thesis using a [of "'' b''"] a [of "''A''"] b e by simp
qed

subsection \<open>Keyword extraction and the keyword score\<close>

lemma isalpha_isword: "isalpha c \<Longrightarrow> isword c"
  by (simp add: isword_def)

lemma while_coincide:
  assumes "\<And>x. P x \<Longrightarrow> Q x"
    and "case dropWhile P xs of [] \<Rightarrow> True | r # _ \<Rightarrow> \<not> Q r"
  shows "takeWhile Q xs = takeWhile P xs \<and> dropWhile Q xs = dropWhile P xs"
  using assms by (induction xs) (auto split: if_splits)

lemma run_not_alphabetic:
  assumes "\<And>x. P x \<Longrightarrow> Q x" and "dropWhile P xs = r # rs" and "Q r"
  shows "\<not> list_all P (takeWhile Q xs)"
proof -
  have "\<not> P r" using assms(2) by (metis hd_dropWhile list.sel(1) list.distinct(1))
  have "xs = takeWhile P xs @ r # rs" using assms(2) by (metis takeWhile_dropWhile_id)
  moreover have "\<forall>x\<in>set (takeWhile P xs). Q x" using assms(1) by (auto dest: set_takeWhileD)
  ultimately have "takeWhile Q xs = takeWhile P xs @ takeWhile Q (r # rs)"
    by (metis takeWhile_append2)
  then show ?thesis using \<open>\<not> P r\<close> \<open>Q r\<close> by (simp add: list_all_iff)
qed

text \<open>
  The matches of the regular expression are the maximal word-character runs that consist
  of letters only and have four characters or more.
\<close>

lemma findall_words_runs:
  "findall_words prev s
     = filter alphabetic_word (word_runs (if prev then dropWhile isword s else s))"
proof (induction prev s rule: findall_words.induct)
  case (1 prev)
  then show ?case by simp
next
  case (2 prev c cs)
  show ?case
  proof (cases "\<not> prev \<and> isalpha c")
    case False
    then show ?thesis using 2(3)
      by (auto simp: alphabetic_word_def)
  next
    case True
    let ?run = "takeWhile isalpha (c # cs)" and ?rest = "dropWhile isalpha (c # cs)"
    have w: "isword c" using True by (simp add: isalpha_isword)
    show ?thesis
    proof (cases "case ?rest of [] \<Rightarrow> True | r # _ \<Rightarrow> \<not> isword r")
      case bnd: True
      have co: "takeWhile isword (c # cs) = ?run" "dropWhile isword (c # cs) = ?rest"
        using while_coincide [of isalpha isword "c # cs"] bnd isalpha_isword by blast+
      have dr: "dropWhile isword ?rest = ?rest"
        using bnd by (cases ?rest) auto
      have al: "list_all isalpha ?run"
        by (auto simp: list_all_iff dest: set_takeWhileD)
      show ?thesis
      proof (cases "4 \<le> length ?run")
        case True
        with \<open>\<not> prev \<and> isalpha c\<close> bnd 2(1) [OF _ refl refl] co dr al w show ?thesis
          by (simp add: alphabetic_word_def del: takeWhile.simps dropWhile.simps)
      next
        case False
        with \<open>\<not> prev \<and> isalpha c\<close> bnd 2(2) [OF _ refl refl] co w show ?thesis
          by (simp add: alphabetic_word_def)
      qed
    next
      case nb: False
      then obtain r rs where r: "?rest = r # rs" "isword r"
        by (cases ?rest) auto
      have "\<not> list_all isalpha (takeWhile isword (c # cs))"
        using run_not_alphabetic [of isalpha isword "c # cs" r rs] r isalpha_isword by blast
      with \<open>\<not> prev \<and> isalpha c\<close> nb 2(2) [OF _ refl refl] w show ?thesis
        by (simp add: alphabetic_word_def)
    qed
  qed
qed

lemma count_words_snoc:
  "count_words d0 (ws @ [w]) =
     dict_set (count_words d0 ws) w (dict_get (count_words d0 ws) w 0 + 1)"
  by (induction ws arbitrary: d0) simp_all

lemma dict_get_tabulate:
  "dict_get (map (\<lambda>x. (x, f x)) ks) w d = (if w \<in> set ks then f w else d)"
  by (induction ks) auto

lemma dict_set_tabulate:
  "distinct ks \<Longrightarrow> dict_set (map (\<lambda>x. (x, f x)) ks) w v =
     (if w \<in> set ks then map (\<lambda>x. (x, if x = w then v else f x)) ks
      else map (\<lambda>x. (x, f x)) ks @ [(w, v)])"
  by (induction ks) auto

lemma first_seen_snoc:
  "first_seen (ws @ [w]) = (if w \<in> set ws then first_seen ws else first_seen ws @ [w])"
  by (simp add: first_seen_def)

lemma distinct_first_seen: "distinct (first_seen ws)"
  by (simp add: first_seen_def)

lemma set_first_seen: "set (first_seen ws) = set ws"
  by (simp add: first_seen_def)

text \<open>
  The dictionary built by the loop lists the distinct words in first-seen order, each with
  its number of occurrences.
\<close>

lemma count_words_tabulate:
  "count_words [] ws = map (\<lambda>w. (w, count_list ws w)) (first_seen ws)"
proof (induction ws rule: rev_induct)
  case Nil
  then show ?case by (simp add: first_seen_def)
next
  case (snoc w ws)
  show ?case
    by (auto simp: count_words_snoc snoc dict_get_tabulate dict_set_tabulate
        distinct_first_seen set_first_seen first_seen_snoc)
qed

lemma insort_key_map:
  "insort_key f (g x) (map g xs) = map g (insort_key (\<lambda>y. f (g y)) x xs)"
  by (induction xs) simp_all

lemma sort_key_map:
  "sort_key f (map g xs) = map g (sort_key (\<lambda>y. f (g y)) xs)"
  by (induction xs) (simp_all add: insort_key_map)

lemma extract_keywords_spec: "extract_keywords text 5 = spec_keywords text"
  by (simp add: extract_keywords_def spec_keywords_def Let_def findall_words_runs
      count_words_tabulate sorted_by_freq_desc_def sort_key_map take_map comp_def)

text \<open>
  C3. The keyword score is computed from \<open>grading_criteria['keywords']\<close> when that list
  is not empty, and otherwise from the five most frequent alphabetic words of four letters
  or more of the lower-cased expected answer, ties in first-seen order. It is 1/2 when
  there is no keyword, and otherwise the number of keywords that occur in the answer text
  as substrings, case ignored, divided by the number of keywords.
\<close>

theorem keyword_score_spec:
  "calculate_keyword_score q answer_text = spec_keyword_score q answer_text"
  by (simp add: calculate_keyword_score_def spec_keyword_score_def Let_def extract_keywords_spec)

theorem keyword_score_spec_witness:
  "calculate_keyword_score
     \<lparr>question_type = ''SHORT'', question_text = ''How does binary search work?'', marks = 10,
      expected_answer = ''Binary search halves the sorted range; binary search is fast.'',
      grading_criteria = Map.empty\<rparr>
     ''Binary SEARCH on a sorted array'' = 3 / 5
   \<and> spec_keywords ''Binary search halves the sorted range; binary search is fast.''
       = [''binary'', ''search'', ''halves'', ''sorted'', ''range'']"
proof -
  let ?q = "\<lparr>question_type = ''SHORT'', question_text = ''How does binary search work?'',
      marks = 10,
      expected_answer = ''Binary search halves the sorted range; binary search is fast.'',
      grading_criteria = Map.empty\<rparr>"
  have "spec_keyword_score ?q ''Binary SEARCH on a sorted array'' = 3 / 5"
    by code_simp
  moreover have "spec_keywords ''Binary search halves the sorted range; binary search is fast.''
       = [''binary'', ''search'', ''halves'', ''sorted'', ''range'']"
    by code_simp
  ultimately show ?thesis
    using keyword_score_spec [of ?q "''Binary SEARCH on a sorted array''"] by simp
qed

lemma lower_Nil: "lower [] = []" by (simp add: lower_def)

lemma count_empty_le_matched:
  "count_list ks [] \<le> length (filter (\<lambda>kw. sublist (lower kw) s) ks)"
  by (induction ks) (auto simp: lower_Nil)

text \<open>
  C10. An empty string among the configured keywords is matched by every answer text, the
  empty one included: the keyword score is at least the share of empty entries in the
  list, and with the keyword list \<^verbatim>\<open>[""]\<close> it is 1 for every answer.
\<close>

theorem empty_keyword_always_matches:
  assumes "grading_criteria q ''keywords'' = Some ks" and "ks \<noteq> []"
  shows "real (count_list ks []) / real (length ks) \<le> calculate_keyword_score q a
       \<and> (ks = [[]] \<longrightarrow> calculate_keyword_score q a = 1 \<and> calculate_keyword_score q [] = 1)"
proof -
  have "real (count_list ks []) \<le> real (length (filter (\<lambda>kw. sublist (lower kw) (lower a)) ks))"
    using count_empty_le_matched [of ks "lower a"] by simp
  then have "real (count_list ks []) / real (length ks)
      \<le> real (length (filter (\<lambda>kw. sublist (lower kw) (lower a)) ks)) / real (length ks)"
    by (rule divide_right_mono) simp
  then show ?thesis using assms
    by (auto simp: calculate_keyword_score_def Let_def lower_Nil)
qed

theorem empty_keyword_always_matches_witness:
  "calculate_keyword_score
     \<lparr>question_type = ''SHORT'', question_text = ''Define a stack.'', marks = 4,
      expected_answer = ''A stack is a last-in first-out container.'',
      grading_criteria = [''keywords'' \<mapsto> [[]]]\<rparr> [] = 1
   \<and> 1 / 2 \<le> calculate_keyword_score
     \<lparr>question_type = ''SHORT'', question_text = ''Define a stack.'', marks = 4,
      expected_answer = ''A stack is a last-in first-out container.'',
      grading_criteria = [''keywords'' \<mapsto> [''stack'', [], ''lifo'', []]]\<rparr> ''no idea''"
proof -
  let ?q = "\<lambda>ks. \<lparr>question_type = ''SHORT'', question_text = ''Define a stack.'', marks = 4,
      expected_answer = ''A stack is a last-in first-out container.'',
      grading_criteria = [''keywords'' \<mapsto> ks]\<rparr>"
  have a: "grading_criteria (?q [[]]) ''keywords'' = Some [[]]" "[[]] \<noteq> ([] :: string list)"
    by simp_all
  have b: "grading_criteria (?q [''stack'', [], ''lifo'', []]) ''keywords''
             = Some [''stack'', [], ''lifo'', []]"
    "[''stack'', [], ''lifo'', []] \<noteq> []"
    by simp_all
  show ?thesis
    using empty_keyword_always_matches [OF a, of "[]"]
      empty_keyword_always_matches [OF b, of "''no idea''"]
    by simp
qed

subsection \<open>Similarity\<close>

lemma strip_empty_iff: "strip s = [] \<longleftrightarrow> list_all isspace s"
proof
  assume "strip s = []"
  then have "\<forall>x\<in>set (dropWhile isspace s). isspace x"
    by (simp add: strip_def dropWhile_eq_Nil_conv)
  then have "dropWhile isspace s = []"
  proof (cases "dropWhile isspace s")
    case (Cons x xs)
    then have "\<not> isspace x" using hd_dropWhile [of isspace s] by simp
    moreover have "isspace x" using Cons \<open>\<forall>x\<in>set (dropWhile isspace s). isspace x\<close> by simp
    ultimately show ?thesis by simp
  qed simp
  then show "list_all isspace s"
    by (simp add: dropWhile_eq_Nil_conv list_all_iff)
next
  assume "list_all isspace s"
  then have e: "dropWhile isspace s = []"
    by (simp add: list_all_iff)
  show "strip s = []"
    unfolding strip_def e by simp
qed

lemma calculate_similarity_blank:
  "list_all isspace expected \<or> list_all isspace submitted \<Longrightarrow>
     calculate_similarity lib v expected submitted = (0, v)"
  by (simp add: calculate_similarity_def strip_empty_iff)

lemma calculate_similarity_fallback:
  "\<not> list_all isspace expected \<Longrightarrow> \<not> list_all isspace submitted \<Longrightarrow>
   fst (lib v expected submitted) = None \<Longrightarrow>
     fst (calculate_similarity lib v expected submitted) = word_overlap expected submitted"
  by (cases "lib v expected submitted") (simp add: calculate_similarity_def strip_empty_iff)

lemma service_grade_answer_mock:
  "\<exists>r s. service_grade_answer lib (MockGradingService v) q a = Inr (r, s)"
  by (cases "grade_answer lib v q a") simp


text \<open>
  C4. When the expected answer or the answer text is empty or consists of whitespace only,
  the similarity is 0 and the library is not called (the vectorizer is returned
  unchanged). When the library raises, the similarity is the number of common words of the
  two lower-cased, whitespace-split texts divided by the number of distinct words of the
  expected answer, and 0 when the expected answer has no word. A call of \<open>grade_answer\<close>
  on the mock service returns a result whatever the library does.
\<close>

theorem similarity_short_circuit_and_fallback:
  "(list_all isspace expected \<or> list_all isspace submitted \<longrightarrow>
      calculate_similarity lib v expected submitted = (0, v))
   \<and> (\<not> list_all isspace expected \<and> \<not> list_all isspace submitted
        \<and> fst (lib v expected submitted) = None \<longrightarrow>
      fst (calculate_similarity lib v expected submitted)
        = (if set (split (lower expected)) = {} then 0
           else real (card (set (split (lower expected)) \<inter> set (split (lower submitted))))
                  / real (card (set (split (lower expected))))))
   \<and> (\<exists>r s. service_grade_answer lib (MockGradingService v) q a = Inr (r, s))"
proof (intro conjI impI)
  assume "list_all isspace expected \<or> list_all isspace submitted"
  then show "calculate_similarity lib v expected submitted = (0, v)"
    by (rule calculate_similarity_blank)
next
  assume "\<not> list_all isspace expected \<and> \<not> list_all isspace submitted
        \<and> fst (lib v expected submitted) = None"
  then have "fst (calculate_similarity lib v expected submitted) = word_overlap expected submitted"
    by (simp add: calculate_similarity_fallback)
  then show "fst (calculate_similarity lib v expected submitted)
        = (if set (split (lower expected)) = {} then 0
           else real (card (set (split (lower expected)) \<inter> set (split (lower submitted))))
                  / real (card (set (split (lower expected)))))"
    by (simp only: word_overlap_def Let_def)
next
  show "\<exists>r s. service_grade_answer lib (MockGradingService v) q a = Inr (r, s)"
    by (rule service_grade_answer_mock)
qed

theorem similarity_short_circuit_and_fallback_witness:
  "calculate_similarity fit_count_lib 0 ''The heap property'' ''  '' = (0, 0)
   \<and> fst (calculate_similarity fit_count_lib 0 ''The heap property'' ''a HEAP  is the tree'') = 2 / 3
   \<and> (\<exists>r s. service_grade_answer fit_count_lib (MockGradingService 0)
         \<lparr>question_type = ''SHORT'', question_text = ''What is a heap?'', marks = 3,
          expected_answer = ''The heap property'', grading_criteria = Map.empty\<rparr>
         ''a HEAP  is the tree'' = Inr (r, s))"
proof -
  let ?q = "\<lparr>question_type = ''SHORT'', question_text = ''What is a heap?'', marks = 3,
          expected_answer = ''The heap property'', grading_criteria = Map.empty\<rparr>"
  have a: "list_all isspace ''The heap property'' \<or> list_all isspace ''  ''"
    by code_simp
  have b: "\<not> list_all isspace ''The heap property'' \<and> \<not> list_all isspace ''a HEAP  is the tree''
    \<and> fst (fit_count_lib 0 ''The heap property'' ''a HEAP  is the tree'') = None"
    by code_simp
  have c: "(if set (split (lower ''The heap property'')) = {} then 0
           else real (card (set (split (lower ''The heap property''))
                        \<inter> set (split (lower ''a HEAP  is the tree''))))
                  / real (card (set (split (lower ''The heap property''))))) = 2 / 3"
    by code_simp
  note t1 = similarity_short_circuit_and_fallback
      [of "''The heap property''" "''  ''" fit_count_lib 0 ?q "''a HEAP  is the tree''"]
  note t2 = similarity_short_circuit_and_fallback
      [of "''The heap property''" "''a HEAP  is the tree''" fit_count_lib 0 ?q
        "''a HEAP  is the tree''"]
  have "calculate_similarity fit_count_lib 0 ''The heap property'' ''  '' = (0, 0)"
    using t1 a by blast
  moreover have "fst (calculate_similarity fit_count_lib 0 ''The heap property''
      ''a HEAP  is the tree'') = 2 / 3"
  proof -
    from t2 b have "fst (calculate_similarity fit_count_lib 0 ''The heap property''
        ''a HEAP  is the tree'')
      = (if set (split (lower ''The heap property'')) = {} then 0
           else real (card (set (split (lower ''The heap property''))
                        \<inter> set (split (lower ''a HEAP  is the tree''))))
                  / real (card (set (split (lower ''The heap property'')))))"
      by blast
    then show ?thesis by (simp only: c)
  qed
  moreover have "\<exists>r s. service_grade_answer fit_count_lib (MockGradingService 0) ?q
         ''a HEAP  is the tree'' = Inr (r, s)"
    using t2 by blast
  ultimately show ?thesis by blast
qed

subsection \<open>Float arithmetic\<close>

lemma rhe_upper: "real_of_int (rhe t) \<le> t + 1 / 2"
  unfolding rhe_def Let_def by (simp; linarith)

lemma rhe_lower: "t - 1 / 2 \<le> real_of_int (rhe t)"
  unfolding rhe_def Let_def by (simp; linarith)

lemma rhe_of_int: "rhe (real_of_int n) = n"
  by (simp add: rhe_def)

lemma rhe_mono:
  assumes "s \<le> t"
  shows "rhe s \<le> rhe t"
proof (rule ccontr)
  assume "\<not> rhe s \<le> rhe t"
  then have "rhe t + 1 \<le> rhe s" by simp
  then have "real_of_int (rhe t) + 1 \<le> real_of_int (rhe s)" by linarith
  then have "t \<le> s" using rhe_upper [of s] rhe_lower [of t] by linarith
  then have "s = t" using assms by simp
  with \<open>\<not> rhe s \<le> rhe t\<close> show False by simp
qed

lemma rhe_le_int: "t \<le> real_of_int n \<Longrightarrow> rhe t \<le> n"
  using rhe_mono [of t "real_of_int n"] by (simp add: rhe_of_int)

lemma rhe_ge_int: "real_of_int n \<le> t \<Longrightarrow> n \<le> rhe t"
  using rhe_mono [of "real_of_int n" t] by (simp add: rhe_of_int)

lemma expo_bracket:
  "0 < x \<Longrightarrow> 2 powi (expo x) \<le> x \<and> x < 2 powi (expo x + 1)"
proof (induction x rule: expo.induct)
  case (1 x)
  show ?case
  proof (cases "2 \<le> x")
    case True
    then have e: "expo x = expo (x / 2) + 1" using 1(3) by (subst expo.simps) simp
    have "2 powi (expo (x / 2)) \<le> x / 2 \<and> x / 2 < 2 powi (expo (x / 2) + 1)"
      using 1(1) 1(3) True by simp
    then show ?thesis unfolding e by (simp add: power_int_add field_simps)
  next
    case False
    show ?thesis
    proof (cases "x < 1")
      case True
      then have e: "expo x = expo (x * 2) - 1" using 1(3) False by (subst expo.simps) simp
      have "2 powi (expo (x * 2)) \<le> x * 2 \<and> x * 2 < 2 powi (expo (x * 2) + 1)"
        using 1(2) 1(3) False True by simp
      then show ?thesis unfolding e by (simp add: power_int_add power_int_diff field_simps)
    next
      case nl: False
      then have e: "expo x = 0" using 1(3) False by (subst expo.simps) simp
      show ?thesis unfolding e using False nl by simp
    qed
  qed
qed

lemma rhe_tie_even: "\<bar>t - real_of_int (rhe t)\<bar> = 1 / 2 \<Longrightarrow> even (rhe t)"
  unfolding rhe_def Let_def by (simp split: if_splits; linarith)

lemma double_of_0: "double_of 0 = 0"
  by (simp add: double_of_def)

lemma double_of_pos_unfold:
  assumes "0 < x"
  shows "double_of x
    = real_of_int (rhe (x / 2 powi (max (expo x) (- 1022) - 52))) * 2 powi (max (expo x) (- 1022) - 52)"
  using assms by (simp add: double_of_def Let_def)

lemma double_of_nonneg: "0 \<le> x \<Longrightarrow> 0 \<le> double_of x"
proof (cases "x = 0")
  case True
  then show ?thesis by (simp add: double_of_0)
next
  case False
  assume "0 \<le> x"
  with False have p: "0 < x" by simp
  let ?u = "(2::real) powi (max (expo x) (- 1022) - 52)"
  have "0 < ?u" by simp
  then have "real_of_int 0 \<le> x / ?u" using p by simp
  then have "0 \<le> rhe (x / ?u)" by (rule rhe_ge_int)
  then show ?thesis
    unfolding double_of_pos_unfold [OF p] by simp
qed

text \<open>A positive number below \<open>2 ^ (e + 1)\<close> rounds to at most \<open>2 ^ (e + 1)\<close>.\<close>

lemma double_of_le_binade:
  assumes "0 < x"
  shows "double_of x \<le> 2 powi (max (expo x) (- 1022) + 1)"
proof -
  let ?e = "max (expo x) (- 1022)"
  let ?u = "(2::real) powi (?e - 52)"
  have u: "0 < ?u" by simp
  have "x < 2 powi (expo x + 1)" using expo_bracket [OF assms] by simp
  also have "\<dots> \<le> 2 powi (?e + 1)" by (rule power_int_increasing) simp_all
  finally have "x < 2 powi (?e + 1)" .
  moreover have "(2::real) powi (?e + 1) = 2 ^ 53 * ?u"
    by (simp add: power_int_add power_int_diff)
  ultimately have "x / ?u \<le> real_of_int (2 ^ 53)"
    using u by (simp add: field_simps)
  then have "rhe (x / ?u) \<le> 2 ^ 53" by (rule rhe_le_int)
  then have "real_of_int (rhe (x / ?u)) \<le> real_of_int (2 ^ 53)" by (simp only: of_int_le_iff)
  then have "real_of_int (rhe (x / ?u)) \<le> 2 ^ 53" by simp
  then have "real_of_int (rhe (x / ?u)) * ?u \<le> 2 ^ 53 * ?u"
    using u by (simp del: power_int_diff)
  then show ?thesis
    unfolding double_of_pos_unfold [OF assms] \<open>(2::real) powi (?e + 1) = 2 ^ 53 * ?u\<close> .
qed

lemma double_of_ge_binade:
  assumes "0 < x" and "- 1022 \<le> expo x"
  shows "2 powi (expo x) \<le> double_of x"
proof -
  have m: "max (expo x) (- 1022) = expo x" using assms(2) by simp
  let ?u = "(2::real) powi (expo x - 52)"
  have u: "0 < ?u" by simp
  have "(2::real) powi (expo x) = 2 ^ 52 * ?u"
    by (simp add: power_int_diff)
  moreover have "2 powi (expo x) \<le> x" using expo_bracket [OF assms(1)] by simp
  ultimately have "real_of_int (2 ^ 52) \<le> x / ?u"
    using u by (simp add: field_simps)
  then have "2 ^ 52 \<le> rhe (x / ?u)" by (rule rhe_ge_int)
  then have "real_of_int (2 ^ 52) \<le> real_of_int (rhe (x / ?u))" by (simp only: of_int_le_iff)
  then have "2 ^ 52 \<le> real_of_int (rhe (x / ?u))" by simp
  then have "2 ^ 52 * ?u \<le> real_of_int (rhe (x / ?u)) * ?u"
    using u by (simp del: power_int_diff)
  then show ?thesis
    unfolding double_of_pos_unfold [OF assms(1)] m \<open>(2::real) powi (expo x) = 2 ^ 52 * ?u\<close> .
qed

lemma expo_mono:
  assumes "0 < x" and "x \<le> y"
  shows "expo x \<le> expo y"
proof (rule ccontr)
  assume "\<not> expo x \<le> expo y"
  then have "expo y + 1 \<le> expo x" by simp
  then have "(2::real) powi (expo y + 1) \<le> 2 powi (expo x)"
    by (intro power_int_increasing) simp_all
  moreover have "y < 2 powi (expo y + 1)" using expo_bracket [of y] assms by simp
  moreover have "2 powi (expo x) \<le> x" using expo_bracket [OF assms(1)] by simp
  ultimately show False using assms(2) by linarith
qed

lemma double_of_mono:
  assumes "0 \<le> x" and "x \<le> y"
  shows "double_of x \<le> double_of y"
proof (cases "x = 0")
  case True
  then show ?thesis using assms double_of_nonneg [of y] by (simp add: double_of_0)
next
  case False
  then have px: "0 < x" using assms(1) by simp
  then have py: "0 < y" using assms(2) by simp
  let ?ex = "max (expo x) (- 1022)" and ?ey = "max (expo y) (- 1022)"
  have le: "?ex \<le> ?ey" using expo_mono [OF px assms(2)] by simp
  show ?thesis
  proof (cases "?ex = ?ey")
    case True
    let ?u = "(2::real) powi (?ey - 52)"
    have u: "0 < ?u" by simp
    have "x / ?u \<le> y / ?u" using assms(2) u by (simp add: divide_right_mono)
    then have "rhe (x / ?u) \<le> rhe (y / ?u)" by (rule rhe_mono)
    then have "real_of_int (rhe (x / ?u)) \<le> real_of_int (rhe (y / ?u))" by linarith
    then have "real_of_int (rhe (x / ?u)) * ?u \<le> real_of_int (rhe (y / ?u)) * ?u"
      using u by (simp del: power_int_diff)
    then show ?thesis
      unfolding double_of_pos_unfold [OF px] double_of_pos_unfold [OF py] True .
  next
    case False
    then have lt: "?ex + 1 \<le> ?ey" using le by simp
    then have n: "- 1022 \<le> expo y" and ey: "?ey = expo y" by simp_all
    have "double_of x \<le> 2 powi (?ex + 1)" by (rule double_of_le_binade [OF px])
    also have "\<dots> \<le> 2 powi (expo y)"
      using lt unfolding ey by (intro power_int_increasing) simp_all
    also have "\<dots> \<le> double_of y" by (rule double_of_ge_binade [OF py n])
    finally show ?thesis .
  qed
qed

text \<open>The relative error of rounding a number of the normal range.\<close>

lemma double_of_upper:
  assumes "2 powi (- 1022) \<le> x"
  shows "double_of x \<le> x * (1 + 1 / 2 ^ 53)"
proof -
  have px: "0 < x" using assms by (smt (verit) zero_less_power_int)
  have "\<not> expo x + 1 \<le> - 1022"
  proof
    assume "expo x + 1 \<le> - 1022"
    then have "(2::real) powi (expo x + 1) \<le> 2 powi (- 1022)"
      by (intro power_int_increasing) simp_all
    then show False using expo_bracket [OF px] assms by linarith
  qed
  then have m: "max (expo x) (- 1022) = expo x" by simp
  let ?u = "(2::real) powi (expo x - 52)"
  have u: "0 < ?u" by simp
  have "real_of_int (rhe (x / ?u)) \<le> x / ?u + 1 / 2" by (rule rhe_upper)
  then have "real_of_int (rhe (x / ?u)) * ?u \<le> (x / ?u + 1 / 2) * ?u"
    using u by (simp del: power_int_diff)
  also have "\<dots> = x + ?u / 2" using u by (simp add: field_simps del: power_int_diff)
  also have "?u / 2 = 2 powi (expo x) / 2 ^ 53" by (simp add: power_int_diff)
  also have "x + 2 powi (expo x) / 2 ^ 53 \<le> x + x / 2 ^ 53"
    using expo_bracket [OF px] by (simp add: divide_right_mono)
  finally show ?thesis
    unfolding double_of_pos_unfold [OF px] m by (simp add: field_simps)
qed

text \<open>The equations that evaluate float arithmetic on numerals.\<close>

lemmas float_eval = double_of_def fmul_def fadd_def round2_def rhe_def Let_def expo.simps
  power_int_def power_one_over

subsection \<open>Short answers\<close>

lemma round2_nearest:
  "\<exists>n. round2 x = double_of (real_of_int n / 100)
       \<and> \<bar>x * 100 - real_of_int n\<bar> \<le> 1 / 2
       \<and> (\<bar>x * 100 - real_of_int n\<bar> = 1 / 2 \<longrightarrow> even n)"
proof (intro exI conjI impI)
  show "round2 x = double_of (real_of_int (rhe (x * 100)) / 100)"
    by (simp add: round2_def)
  show "\<bar>x * 100 - real_of_int (rhe (x * 100))\<bar> \<le> 1 / 2"
    using rhe_upper [of "x * 100"] rhe_lower [of "x * 100"] by linarith
  show "even (rhe (x * 100))" if "\<bar>x * 100 - real_of_int (rhe (x * 100))\<bar> = 1 / 2"
    using that by (rule rhe_tie_even)
qed

lemma grade_answer_SHORT:
  "question_type q = ''SHORT'' \<Longrightarrow> grade_answer lib v q a = grade_short_answer lib v q a"
  by (simp add: grade_answer_def)

text \<open>
  C5. For a SHORT question, with \<open>k\<close> the keyword score and \<open>s\<close> the similarity score as
  floats and \<open>c\<close> the combined score \<open>0.6 * k + 0.4 * s\<close> in float arithmetic: the score
  is \<^verbatim>\<open>round(marks * c, 2)\<close>, that is the double nearest to the multiple of 1/100
  nearest to the float product \<open>marks * c\<close> (a tie going to the even multiple);
  \<open>is_correct\<close> is \<open>c \<ge> 0.7\<close>; and the feedback is the "Excellent" message from 0.9, the
  "Good" message from 0.7, the "Partial credit" message from 0.5 and the "needs
  improvement" message below, the thresholds being the float literals.
\<close>

theorem grade_answer_short:
  assumes "question_type q = ''SHORT''"
    and "k = double_of (calculate_keyword_score q a)"
    and "s = double_of (fst (calculate_similarity lib v (expected_answer q) a))"
    and "c = fadd (fmul (double_of (6 / 10)) k) (fmul (double_of (4 / 10)) s)"
    and "r = fst (grade_answer lib v q a)"
  shows "score r = round2 (fmul (marks q) c)
       \<and> (\<exists>n. score r = double_of (real_of_int n / 100)
              \<and> \<bar>fmul (marks q) c * 100 - real_of_int n\<bar> \<le> 1 / 2
              \<and> (\<bar>fmul (marks q) c * 100 - real_of_int n\<bar> = 1 / 2 \<longrightarrow> even n))
       \<and> is_correct r = (double_of (7 / 10) \<le> c)
       \<and> (double_of (9 / 10) \<le> c \<longrightarrow> feedback r = ''Excellent answer! Well done.'')
       \<and> (double_of (7 / 10) \<le> c \<and> c < double_of (9 / 10) \<longrightarrow>
            feedback r = ''Good answer. You covered the main points.'')
       \<and> (double_of (5 / 10) \<le> c \<and> c < double_of (7 / 10) \<longrightarrow>
            feedback r
              = ''Partial credit. Your answer covers some key concepts but could be improved.'')
       \<and> (c < double_of (5 / 10) \<longrightarrow>
            feedback r = ''Your answer needs improvement. Please review the key concepts.'')"
proof -
  obtain s' v' where sv: "calculate_similarity lib v (expected_answer q) a = (s', v')"
    by (cases "calculate_similarity lib v (expected_answer q) a")
  have r: "r = \<lparr>score = round2 (fmul (marks q) c),
           feedback = generate_feedback c k s,
           is_correct = (double_of (7 / 10) \<le> c),
           metadata = [(''grading_method'', MStr ''keyword_similarity''),
                       (''keyword_score'', MFloat (round2 k)),
                       (''similarity_score'', MFloat (round2 s)),
                       (''combined_score'', MFloat (round2 c))]\<rparr>"
    using assms sv by (simp add: grade_answer_SHORT grade_short_answer_def Let_def)
  have o: "double_of (5 / 10) \<le> double_of (7 / 10)" "double_of (7 / 10) \<le> double_of (9 / 10)"
    by (rule double_of_mono; simp)+
  have "score r = round2 (fmul (marks q) c)" unfolding r by simp
  moreover have "\<exists>n. score r = double_of (real_of_int n / 100)
              \<and> \<bar>fmul (marks q) c * 100 - real_of_int n\<bar> \<le> 1 / 2
              \<and> (\<bar>fmul (marks q) c * 100 - real_of_int n\<bar> = 1 / 2 \<longrightarrow> even n)"
    unfolding r using round2_nearest [of "fmul (marks q) c"] by simp
  moreover have "is_correct r = (double_of (7 / 10) \<le> c)" unfolding r by simp
  moreover have "double_of (9 / 10) \<le> c \<longrightarrow> feedback r = ''Excellent answer! Well done.''"
    unfolding r by (simp add: generate_feedback_def)
  moreover have "double_of (7 / 10) \<le> c \<and> c < double_of (9 / 10) \<longrightarrow>
            feedback r = ''Good answer. You covered the main points.''"
    unfolding r by (simp add: generate_feedback_def)
  moreover have "double_of (5 / 10) \<le> c \<and> c < double_of (7 / 10) \<longrightarrow>
            feedback r
              = ''Partial credit. Your answer covers some key concepts but could be improved.''"
    unfolding r using o by (auto simp: generate_feedback_def)
  moreover have "c < double_of (5 / 10) \<longrightarrow>
            feedback r = ''Your answer needs improvement. Please review the key concepts.''"
    unfolding r using o by (auto simp: generate_feedback_def)
  ultimately show ?thesis by blast
qed

theorem grade_answer_short_witness:
  "score (fst (grade_answer fit_count_lib 0
      \<lparr>question_type = ''SHORT'', question_text = ''What is a stack?'', marks = 9 / 4,
       expected_answer = ''A stack is LIFO'',
       grading_criteria = [''keywords'' \<mapsto> [[], ''x'']]\<rparr> [])) = double_of (67 / 100)
   \<and> feedback (fst (grade_answer fit_count_lib 0
      \<lparr>question_type = ''SHORT'', question_text = ''What is a stack?'', marks = 9 / 4,
       expected_answer = ''A stack is LIFO'',
       grading_criteria = [''keywords'' \<mapsto> [[], ''x'']]\<rparr> []))
       = ''Your answer needs improvement. Please review the key concepts.''
   \<and> score (fst (grade_answer fit_count_lib 0
      \<lparr>question_type = ''SHORT'', question_text = ''What is a stack?'', marks = 10,
       expected_answer = ''A stack is LIFO'',
       grading_criteria = [''keywords'' \<mapsto> [''stack'', ''lifo'']]\<rparr>
      ''a stack is lifo'')) = 10
   \<and> is_correct (fst (grade_answer fit_count_lib 0
      \<lparr>question_type = ''SHORT'', question_text = ''What is a stack?'', marks = 10,
       expected_answer = ''A stack is LIFO'',
       grading_criteria = [''keywords'' \<mapsto> [''stack'', ''lifo'']]\<rparr>
      ''a stack is lifo''))"
proof -
  let ?p = "\<lparr>question_type = ''SHORT'', question_text = ''What is a stack?'', marks = 9 / 4,
       expected_answer = ''A stack is LIFO'',
       grading_criteria = [''keywords'' \<mapsto> [[], ''x'']]\<rparr>"
  let ?q = "\<lparr>question_type = ''SHORT'', question_text = ''What is a stack?'', marks = 10,
       expected_answer = ''A stack is LIFO'',
       grading_criteria = [''keywords'' \<mapsto> [''stack'', ''lifo'']]\<rparr>"
  have t: "question_type ?p = ''SHORT''" "question_type ?q = ''SHORT''" by simp_all
  have k: "calculate_keyword_score ?p [] = 1 / 2"
    "calculate_keyword_score ?q ''a stack is lifo'' = 1"
    by code_simp+
  have s: "fst (calculate_similarity fit_count_lib 0 (expected_answer ?p) []) = 0"
    "fst (calculate_similarity fit_count_lib 0 (expected_answer ?q) ''a stack is lifo'')
       = 1 + 1 / 2 ^ 52"
    by code_simp+
  have c1: "fadd (fmul (double_of (6 / 10)) (double_of (calculate_keyword_score ?p [])))
        (fmul (double_of (4 / 10))
           (double_of (fst (calculate_similarity fit_count_lib 0 (expected_answer ?p) []))))
      = double_of (3 / 10)"
    unfolding k s by (simp add: float_eval)
  have c2: "fadd (fmul (double_of (6 / 10)) (double_of (calculate_keyword_score ?q ''a stack is lifo'')))
        (fmul (double_of (4 / 10))
           (double_of (fst (calculate_similarity fit_count_lib 0 (expected_answer ?q)
              ''a stack is lifo''))))
      = 1"
    unfolding k s by (simp add: float_eval)
  have r: "round2 (fmul (9 / 4) (double_of (3 / 10))) = double_of (67 / 100)"
    "round2 (fmul 10 1) = 10"
    by (simp_all add: float_eval)
  have o: "double_of (3 / 10) < double_of (5 / 10)" "double_of (7 / 10) \<le> 1"
    by (simp_all add: float_eval)
  note a = grade_answer_short [OF t(1) refl refl c1 [symmetric] refl]
  note b = grade_answer_short [OF t(2) refl refl c2 [symmetric] refl]
  have "score (fst (grade_answer fit_count_lib 0 ?p [])) = double_of (67 / 100)"
    using a r(1) by simp
  moreover have "feedback (fst (grade_answer fit_count_lib 0 ?p []))
       = ''Your answer needs improvement. Please review the key concepts.''"
    using a o(1) by blast
  moreover have "score (fst (grade_answer fit_count_lib 0 ?q ''a stack is lifo'')) = 10"
    using b r(2) by simp
  moreover have "is_correct (fst (grade_answer fit_count_lib 0 ?q ''a stack is lifo''))"
    using b o(2) by blast
  ultimately show ?thesis by blast
qed

subsection \<open>Long answers and essays\<close>




subsection \<open>Score bounds\<close>

lemma keyword_score_range:
  "0 \<le> calculate_keyword_score q a \<and> calculate_keyword_score q a \<le> 1"
proof -
  have "real (length (filter P ks)) / real (length ks) \<le> 1" for P and ks :: "string list"
    by (cases "ks = []") (simp_all add: divide_le_eq_1)
  then show ?thesis
    by (simp add: calculate_keyword_score_def Let_def)
qed

lemma word_overlap_range: "0 \<le> word_overlap e s \<and> word_overlap e s \<le> 1"
proof -
  have "card (set xs \<inter> set ys) \<le> card (set xs)" for xs ys :: "string list"
    by (simp add: card_mono)
  then have "real (card (set xs \<inter> set ys)) / real (card (set xs)) \<le> 1" for xs ys :: "string list"
    by (cases "card (set xs) = 0") (simp_all add: divide_le_eq_1 del: card_0_eq)
  then show ?thesis
    by (simp add: word_overlap_def Let_def)
qed

lemma calculate_similarity_range:
  assumes "\<forall>v e s x. fst (lib v e s) = Some x \<longrightarrow> 0 \<le> x \<and> x \<le> 1 + 1 / 10 ^ 6"
  shows "0 \<le> fst (calculate_similarity lib v e s)
       \<and> fst (calculate_similarity lib v e s) \<le> 1 + 1 / 10 ^ 6"
proof (cases "strip e = [] \<or> strip s = []")
  case True
  then show ?thesis by (simp add: calculate_similarity_def)
next
  case False
  obtain o' v' where l: "lib v e s = (o', v')" by (cases "lib v e s")
  show ?thesis
  proof (cases o')
    case None
    with False l show ?thesis
      using word_overlap_range [of e s] by (simp add: calculate_similarity_def)
  next
    case (Some x)
    with l assms have "0 \<le> x \<and> x \<le> 1 + 1 / 10 ^ 6" by (metis fst_conv)
    with False l Some show ?thesis by (simp add: calculate_similarity_def)
  qed
qed

lemma fmul_mono:
  assumes "0 \<le> a" and "0 \<le> x" and "x \<le> y"
  shows "0 \<le> fmul a x \<and> fmul a x \<le> fmul a y"
proof -
  have "0 \<le> a * x" using assms by simp
  moreover have "a * x \<le> a * y" using assms by (simp add: mult_left_mono)
  ultimately show ?thesis
    unfolding fmul_def using double_of_nonneg double_of_mono by blast
qed

lemma fadd_mono:
  assumes "0 \<le> x" and "x \<le> x'" and "0 \<le> y" and "y \<le> y'"
  shows "0 \<le> fadd x y \<and> fadd x y \<le> fadd x' y'"
proof -
  have "0 \<le> x + y" "x + y \<le> x' + y'" using assms by simp_all
  then show ?thesis
    unfolding fadd_def using double_of_nonneg double_of_mono by blast
qed

lemma float_constants:
  "0 \<le> double_of (3 / 10)" "0 \<le> double_of (4 / 10)" "0 \<le> double_of (6 / 10)"
  "double_of 1 = 1"
  "double_of (3 / 10) \<le> 1" "double_of (6 / 10) \<le> 1" "double_of (9 / 10) \<le> 1"
  by (simp_all add: float_eval)

lemma short_combined_max:
  "fadd (fmul (double_of (6 / 10)) 1) (fmul (double_of (4 / 10)) (double_of (1 + 1 / 10 ^ 6)))
     \<le> 1 + 1 / 10 ^ 6"
  by (simp add: float_eval)

lemma long_combined_max:
  "fadd (fadd (fmul (double_of (3 / 10)) 1) (fmul (double_of (3 / 10)) 1))
        (fmul (double_of (4 / 10)) (double_of (1 + 1 / 10 ^ 6)))
     \<le> 1 + 1 / 10 ^ 6"
  by (simp add: float_eval)

lemma round2_0: "round2 0 = 0"
  by (simp add: round2_def rhe_def double_of_0)

lemma round2_nonneg: "0 \<le> x \<Longrightarrow> 0 \<le> round2 x"
proof -
  assume "0 \<le> x"
  then have "real_of_int 0 \<le> x * 100" by simp
  then have "0 \<le> rhe (x * 100)" by (rule rhe_ge_int)
  then have "0 \<le> real_of_int (rhe (x * 100)) / 100" by simp
  then show ?thesis unfolding round2_def by (rule double_of_nonneg)
qed

text \<open>
  Rounding to two decimals brings a score that exceeds the marks by a few units in the
  last place back to the marks.
\<close>

lemma scaled_score_bounds:
  assumes "mk = double_of (real_of_int m / 100)" and "0 \<le> m" and "m \<le> 99999"
    and "0 \<le> c" and "c \<le> 1 + 1 / 10 ^ 6"
  shows "0 \<le> round2 (fmul mk c) \<and> round2 (fmul mk c) \<le> mk"
proof (cases "m = 0")
  case True
  then have "mk = 0" using assms(1) by (simp add: double_of_0)
  then show ?thesis by (simp add: fmul_def double_of_0 round2_0)
next
  case False
  then have m1: "1 \<le> m" using assms(2) by simp
  let ?d = "real_of_int m / 100"
  let ?B = "(1::real) + 1 / 10 ^ 6"
  have small: "(2::real) powi (- 1022) \<le> 1 / 128"
    by (simp add: power_int_def power_one_over)
  have d1: "1 / 100 \<le> ?d" using m1 by simp
  have mk_nonneg: "0 \<le> mk" unfolding assms(1) using assms(2) by (intro double_of_nonneg) simp
  have "double_of (1 / 100) \<le> mk"
    unfolding assms(1) using d1 by (intro double_of_mono) simp_all
  moreover have "1 / 128 \<le> double_of (1 / 100)" by (simp add: float_eval)
  ultimately have mk_low: "1 / 128 \<le> mk" by linarith
  have "2 powi (- 1022) \<le> ?d" using small d1 by linarith
  then have mk_up: "mk \<le> ?d * (1 + 1 / 2 ^ 53)"
    unfolding assms(1) by (rule double_of_upper)
  have x_nonneg: "0 \<le> fmul mk c" and "fmul mk c \<le> fmul mk ?B"
    using fmul_mono [OF mk_nonneg assms(4,5)] by simp_all
  have "1 / 128 \<le> mk * ?B" using mk_low by (simp add: algebra_simps)
  then have "2 powi (- 1022) \<le> mk * ?B" using small by linarith
  then have "fmul mk ?B \<le> mk * ?B * (1 + 1 / 2 ^ 53)"
    unfolding fmul_def by (rule double_of_upper)
  also have "\<dots> \<le> ?d * (1 + 1 / 2 ^ 53) * ?B * (1 + 1 / 2 ^ 53)"
    using mk_up by (simp add: mult_right_mono)
  also have "\<dots> = ?d * ((1 + 1 / 2 ^ 53) * ?B * (1 + 1 / 2 ^ 53))" by simp
  also have "\<dots> \<le> ?d * (1 + 2 / 10 ^ 6)"
    using m1 by (intro mult_left_mono) simp_all
  finally have "fmul mk ?B \<le> ?d * (1 + 2 / 10 ^ 6)" .
  with \<open>fmul mk c \<le> fmul mk ?B\<close> have "fmul mk c * 100 \<le> real_of_int m * (1 + 2 / 10 ^ 6)"
    by simp
  also have "\<dots> = real_of_int m + real_of_int m * 2 / 10 ^ 6" by (simp add: algebra_simps)
  also have "\<dots> \<le> real_of_int m + 99999 * 2 / 10 ^ 6" using assms(3) by simp
  finally have "fmul mk c * 100 < real_of_int m + 1 / 2" by simp
  then have "real_of_int (rhe (fmul mk c * 100)) < real_of_int (m + 1)"
    using rhe_upper [of "fmul mk c * 100"] by simp
  then have le: "rhe (fmul mk c * 100) \<le> m" by linarith
  have "real_of_int 0 \<le> fmul mk c * 100" using x_nonneg by simp
  then have "0 \<le> rhe (fmul mk c * 100)" by (rule rhe_ge_int)
  then have "0 \<le> real_of_int (rhe (fmul mk c * 100)) / 100" by simp
  moreover have "real_of_int (rhe (fmul mk c * 100)) / 100 \<le> ?d" using le by simp
  ultimately have "round2 (fmul mk c) \<le> mk"
    unfolding round2_def assms(1) by (rule double_of_mono)
  then show ?thesis using round2_nonneg [OF x_nonneg] by simp
qed

lemma length_score_range: "0 \<le> calculate_length_score a \<and> calculate_length_score a \<le> 1"
  using float_constants by (simp add: calculate_length_score_def Let_def double_of_nonneg)

lemma join_spaces_nonempty: "p \<noteq> [] \<Longrightarrow> join_spaces (p # ps) \<noteq> []"
  by (cases ps) simp_all

lemma detailed_feedback_nonempty: "generate_detailed_feedback c l k s a \<noteq> []"
  by (simp add: generate_detailed_feedback_def Let_def join_spaces_nonempty)

lemma feedback_nonempty: "generate_feedback c k s \<noteq> []"
  by (simp add: generate_feedback_def)

lemma double_keyword_range:
  "0 \<le> double_of (calculate_keyword_score q a) \<and> double_of (calculate_keyword_score q a) \<le> 1"
  using keyword_score_range [of q a] double_of_nonneg [of "calculate_keyword_score q a"]
    double_of_mono [of "calculate_keyword_score q a" 1] float_constants(4)
  by simp

lemma double_similarity_range:
  assumes "\<forall>v e s x. fst (lib v e s) = Some x \<longrightarrow> 0 \<le> x \<and> x \<le> 1 + 1 / 10 ^ 6"
  shows "0 \<le> double_of (fst (calculate_similarity lib v e s))
       \<and> double_of (fst (calculate_similarity lib v e s)) \<le> double_of (1 + 1 / 10 ^ 6)"
  using calculate_similarity_range [OF assms, of v e s] double_of_nonneg double_of_mono
  by blast

lemma grade_mcq_bounds:
  "0 \<le> marks q \<Longrightarrow>
     0 \<le> score (grade_mcq q a) \<and> score (grade_mcq q a) \<le> marks q \<and> feedback (grade_mcq q a) \<noteq> []"
  by (simp add: grade_mcq_def Let_def)

lemma grade_short_answer_bounds:
  assumes "marks q = double_of (real_of_int m / 100)" and "0 \<le> m" and "m \<le> 99999"
    and "\<forall>v e s x. fst (lib v e s) = Some x \<longrightarrow> 0 \<le> x \<and> x \<le> 1 + 1 / 10 ^ 6"
  shows "0 \<le> score (fst (grade_short_answer lib v q a))
       \<and> score (fst (grade_short_answer lib v q a)) \<le> marks q
       \<and> feedback (fst (grade_short_answer lib v q a)) \<noteq> []"
proof -
  obtain s' v' where sv: "calculate_similarity lib v (expected_answer q) a = (s', v')"
    by (cases "calculate_similarity lib v (expected_answer q) a")
  let ?k = "double_of (calculate_keyword_score q a)"
  let ?s = "double_of s'"
  let ?c = "fadd (fmul (double_of (6 / 10)) ?k) (fmul (double_of (4 / 10)) ?s)"
  have s: "0 \<le> ?s \<and> ?s \<le> double_of (1 + 1 / 10 ^ 6)"
    using double_similarity_range [OF assms(4), of v "expected_answer q" a] sv by simp
  have a: "0 \<le> fmul (double_of (6 / 10)) ?k
      \<and> fmul (double_of (6 / 10)) ?k \<le> fmul (double_of (6 / 10)) 1"
    using double_keyword_range [of q a] float_constants(3) by (intro fmul_mono) simp_all
  have b: "0 \<le> fmul (double_of (4 / 10)) ?s
      \<and> fmul (double_of (4 / 10)) ?s \<le> fmul (double_of (4 / 10)) (double_of (1 + 1 / 10 ^ 6))"
    using s float_constants(2) by (intro fmul_mono) simp_all
  have "0 \<le> ?c \<and> ?c \<le> fadd (fmul (double_of (6 / 10)) 1)
                            (fmul (double_of (4 / 10)) (double_of (1 + 1 / 10 ^ 6)))"
    using a b by (intro fadd_mono) simp_all
  then have "0 \<le> ?c" "?c \<le> 1 + 1 / 10 ^ 6"
    using short_combined_max by linarith+
  then have "0 \<le> round2 (fmul (marks q) ?c) \<and> round2 (fmul (marks q) ?c) \<le> marks q"
    by (rule scaled_score_bounds [OF assms(1,2,3)])
  then show ?thesis
    using sv by (simp add: grade_short_answer_def Let_def feedback_nonempty)
qed

lemma grade_long_answer_bounds:
  assumes "marks q = double_of (real_of_int m / 100)" and "0 \<le> m" and "m \<le> 99999"
    and "\<forall>v e s x. fst (lib v e s) = Some x \<longrightarrow> 0 \<le> x \<and> x \<le> 1 + 1 / 10 ^ 6"
  shows "0 \<le> score (fst (grade_long_answer lib v q a))
       \<and> score (fst (grade_long_answer lib v q a)) \<le> marks q
       \<and> feedback (fst (grade_long_answer lib v q a)) \<noteq> []"
proof -
  obtain s' v' where sv: "calculate_similarity lib v (expected_answer q) a = (s', v')"
    by (cases "calculate_similarity lib v (expected_answer q) a")
  let ?l = "calculate_length_score a"
  let ?k = "double_of (calculate_keyword_score q a)"
  let ?s = "double_of s'"
  let ?c = "fadd (fadd (fmul (double_of (3 / 10)) ?l) (fmul (double_of (3 / 10)) ?k))
                 (fmul (double_of (4 / 10)) ?s)"
  have s: "0 \<le> ?s \<and> ?s \<le> double_of (1 + 1 / 10 ^ 6)"
    using double_similarity_range [OF assms(4), of v "expected_answer q" a] sv by simp
  have l: "0 \<le> fmul (double_of (3 / 10)) ?l
      \<and> fmul (double_of (3 / 10)) ?l \<le> fmul (double_of (3 / 10)) 1"
    using length_score_range [of a] float_constants(1) by (intro fmul_mono) simp_all
  have a: "0 \<le> fmul (double_of (3 / 10)) ?k
      \<and> fmul (double_of (3 / 10)) ?k \<le> fmul (double_of (3 / 10)) 1"
    using double_keyword_range [of q a] float_constants(1) by (intro fmul_mono) simp_all
  have b: "0 \<le> fmul (double_of (4 / 10)) ?s
      \<and> fmul (double_of (4 / 10)) ?s \<le> fmul (double_of (4 / 10)) (double_of (1 + 1 / 10 ^ 6))"
    using s float_constants(2) by (intro fmul_mono) simp_all
  have la: "0 \<le> fadd (fmul (double_of (3 / 10)) ?l) (fmul (double_of (3 / 10)) ?k)
      \<and> fadd (fmul (double_of (3 / 10)) ?l) (fmul (double_of (3 / 10)) ?k)
          \<le> fadd (fmul (double_of (3 / 10)) 1) (fmul (double_of (3 / 10)) 1)"
    using l a by (intro fadd_mono) simp_all
  have "0 \<le> ?c \<and> ?c \<le> fadd (fadd (fmul (double_of (3 / 10)) 1) (fmul (double_of (3 / 10)) 1))
                            (fmul (double_of (4 / 10)) (double_of (1 + 1 / 10 ^ 6)))"
    using la b by (intro fadd_mono) simp_all
  then have "0 \<le> ?c" "?c \<le> 1 + 1 / 10 ^ 6"
    using long_combined_max by linarith+
  then have "0 \<le> round2 (fmul (marks q) ?c) \<and> round2 (fmul (marks q) ?c) \<le> marks q"
    by (rule scaled_score_bounds [OF assms(1,2,3)])
  then show ?thesis
    using sv by (simp add: grade_long_answer_def Let_def detailed_feedback_nonempty)
qed

text \<open>
  C2. For a question of one of the five supported types and for every answer text (the
  empty and the blank ones included), a call of \<open>grade_answer\<close> on the mock service
  returns a result, whose score lies between 0 and the marks of the question and whose
  feedback is not empty. The marks are those of the field
  \<^verbatim>\<open>DecimalField(max_digits=5, decimal_places=2)\<close> with its validator: the float of a
  decimal number of two places between 0 and 999.99. The similarities that the library
  returns are taken to lie between 0 and 1.000001, which leaves room for a cosine that
  floating point puts a few units in the last place above 1; the score then stays within
  the marks through the rounding to two decimals.
\<close>

theorem grade_answer_score_bounds:
  assumes "question_type q \<in> {''MCQ'', ''TRUE_FALSE'', ''SHORT'', ''LONG'', ''ESSAY''}"
    and "marks q = double_of (real_of_int m / 100)" and "0 \<le> m" and "m \<le> 99999"
    and "\<forall>v e s x. fst (lib v e s) = Some x \<longrightarrow> 0 \<le> x \<and> x \<le> 1 + 1 / 10 ^ 6"
  shows "\<exists>r svc. service_grade_answer lib (MockGradingService v) q a = Inr (r, svc)
           \<and> 0 \<le> score r \<and> score r \<le> marks q \<and> feedback r \<noteq> []"
proof -
  obtain r v' where g: "grade_answer lib v q a = (r, v')"
    by (cases "grade_answer lib v q a")
  have mk: "0 \<le> marks q"
    unfolding assms(2) using assms(3) by (intro double_of_nonneg) simp
  have "0 \<le> score (fst (grade_answer lib v q a))
      \<and> score (fst (grade_answer lib v q a)) \<le> marks q
      \<and> feedback (fst (grade_answer lib v q a)) \<noteq> []"
  proof (cases "question_type q = ''MCQ'' \<or> question_type q = ''TRUE_FALSE''")
    case True
    then show ?thesis
      using grade_mcq_bounds [OF mk, of a] by (simp add: grade_answer_def)
  next
    case False
    show ?thesis
    proof (cases "question_type q = ''SHORT''")
      case True
      then show ?thesis
        using grade_short_answer_bounds [OF assms(2,3,4,5), of v a] by (simp add: grade_answer_def)
    next
      case False
      with \<open>\<not> (question_type q = ''MCQ'' \<or> question_type q = ''TRUE_FALSE'')\<close> show ?thesis
        using grade_long_answer_bounds [OF assms(2,3,4,5), of v a] by (simp add: grade_answer_def)
    qed
  qed
  then show ?thesis using g by simp
qed

lemma fit_count_lib_range:
  "\<forall>v e s x. fst (fit_count_lib v e s) = Some x \<longrightarrow> 0 \<le> x \<and> x \<le> 1 + 1 / 10 ^ 6"
  by (simp add: fit_count_lib_def)

theorem grade_answer_score_bounds_witness:
  "\<exists>r svc. service_grade_answer fit_count_lib (MockGradingService 0)
       \<lparr>question_type = ''SHORT'', question_text = ''What is a stack?'', marks = 10,
        expected_answer = ''A stack is LIFO'',
        grading_criteria = [''keywords'' \<mapsto> [''stack'', ''lifo'']]\<rparr> ''a stack is lifo''
         = Inr (r, svc)
     \<and> 0 \<le> score r \<and> score r \<le> 10 \<and> feedback r \<noteq> []"
proof -
  let ?q = "\<lparr>question_type = ''SHORT'', question_text = ''What is a stack?'', marks = 10,
        expected_answer = ''A stack is LIFO'',
        grading_criteria = [''keywords'' \<mapsto> [''stack'', ''lifo'']]\<rparr>"
  have t: "question_type ?q \<in> {''MCQ'', ''TRUE_FALSE'', ''SHORT'', ''LONG'', ''ESSAY''}"
    by simp
  have m: "marks ?q = double_of (real_of_int 1000 / 100)"
    by (simp add: float_eval)
  have b: "(0::int) \<le> 1000" "(1000::int) \<le> 99999"
    by simp_all
  show ?thesis
    using grade_answer_score_bounds [OF t m b fit_count_lib_range, of 0 "''a stack is lifo''"]
    by simp
qed

subsection \<open>Dispatch on the question type\<close>

text \<open>
  C1. As the claim states it (a question of a type outside the five supported ones makes
  \<open>grade_answer\<close> raise a configuration error and is never handed to a grading strategy),
  it fails: a question of type \<^verbatim>\<open>PROJECT\<close> is graded, by the strategy for long
  answers.
\<close>

theorem unknown_type_counterexample:
  "service_grade_answer fit_count_lib (MockGradingService 0)
     \<lparr>question_type = ''PROJECT'', question_text = ''Describe your design.'', marks = 10,
      expected_answer = ''Use a queue'', grading_criteria = empty_criteria\<rparr> []
   = Inr (\<lparr>score = double_of (9 / 10),
           feedback = ''Your answer needs significant improvement. Consider expanding your answer (current: 0 words). Include more key concepts from the topic. Your answer could align better with the expected content.'',
           is_correct = False,
           metadata = [(''grading_method'', MStr ''comprehensive''),
                       (''length_score'', MFloat (double_of (3 / 10))),
                       (''keyword_score'', MFloat 0),
                       (''similarity_score'', MFloat 0),
                       (''combined_score'', MFloat (double_of (9 / 100))),
                       (''word_count'', MInt 0)]\<rparr>,
          MockGradingService 0)"
proof -
  have k: "calculate_keyword_score
      \<lparr>question_type = ''PROJECT'', question_text = ''Describe your design.'', marks = 10,
       expected_answer = ''Use a queue'', grading_criteria = empty_criteria\<rparr> [] = 0"
    by code_simp
  have s: "calculate_similarity fit_count_lib 0 ''Use a queue'' [] = (0, 0)"
    by code_simp
  have w: "split [] = []" "str_nat 0 = ''0''"
    by code_simp+
  let ?c = "fadd (fadd (fmul (double_of (3 / 10)) (double_of (3 / 10)))
                       (fmul (double_of (3 / 10)) 0))
                 (fmul (double_of (4 / 10)) 0)"
  have f: "round2 (fmul 10 ?c) = double_of (9 / 10)" "round2 ?c = double_of (9 / 100)"
    "round2 (double_of (3 / 10)) = double_of (3 / 10)" "round2 0 = 0"
    "\<not> double_of (6 / 10) \<le> ?c" "\<not> double_of (8 / 10) \<le> ?c"
    "double_of (3 / 10) < double_of (6 / 10)" "0 < double_of (5 / 10)" "0 < double_of (4 / 10)"
    by (simp_all add: float_eval)
  show ?thesis
    using f
    by (simp add: grade_answer_def grade_long_answer_def calculate_length_score_def
        generate_detailed_feedback_def k s w double_of_0)
qed

text \<open>
  C1, as amended. For every question whose type is not one of MCQ, TRUE\_FALSE, SHORT,
  LONG, ESSAY, \<open>grade_answer\<close> raises no error: the final \<^verbatim>\<open>else\<close> branch of the
  dispatch hands the question to the strategy for long answers and returns its result.
\<close>

theorem unknown_type_graded_as_long:
  assumes "question_type q \<notin> {''MCQ'', ''TRUE_FALSE'', ''SHORT'', ''LONG'', ''ESSAY''}"
  shows "\<exists>r v'. grade_long_answer lib v q a = (r, v')
           \<and> service_grade_answer lib (MockGradingService v) q a
               = Inr (r, MockGradingService v')"
  using assms by (cases "grade_long_answer lib v q a") (simp add: grade_answer_def)

theorem unknown_type_graded_as_long_witness:
  "\<exists>r v'. grade_long_answer fit_count_lib 0
       \<lparr>question_type = ''PROJECT'', question_text = ''Describe your design.'', marks = 10,
        expected_answer = ''Use a queue'', grading_criteria = Map.empty\<rparr> ''A queue'' = (r, v')
     \<and> service_grade_answer fit_count_lib (MockGradingService 0)
       \<lparr>question_type = ''PROJECT'', question_text = ''Describe your design.'', marks = 10,
        expected_answer = ''Use a queue'', grading_criteria = Map.empty\<rparr> ''A queue''
         = Inr (r, MockGradingService v')"
proof -
  let ?q = "\<lparr>question_type = ''PROJECT'', question_text = ''Describe your design.'', marks = 10,
        expected_answer = ''Use a queue'', grading_criteria = Map.empty\<rparr>"
  have "question_type ?q \<notin> {''MCQ'', ''TRUE_FALSE'', ''SHORT'', ''LONG'', ''ESSAY''}"
    by simp
  then show ?thesis
    by (rule unknown_type_graded_as_long)
qed

subsection \<open>The factory\<close>

text \<open>
  C8. \<open>get_grading_service\<close> returns the mock service for \<^verbatim>\<open>"mock"\<close>, for no argument
  and for every string other than \<^verbatim>\<open>"llm"\<close>. For \<^verbatim>\<open>"llm"\<close> it returns an LLM service
  (constructed with no API key and the model \<^verbatim>\<open>gpt-4\<close>), and \<open>grade_answer\<close> of an LLM
  service, whatever its configuration, raises \<open>NotImplementedError\<close> on every input.
\<close>

theorem get_grading_service_factory:
  "get_grading_service tfidf (Some ''mock'') = MockGradingService tfidf
   \<and> get_grading_service tfidf None = MockGradingService tfidf
   \<and> (\<forall>kind. kind \<noteq> ''llm'' \<longrightarrow>
         get_grading_service tfidf (Some kind) = MockGradingService tfidf)
   \<and> get_grading_service tfidf (Some ''llm'') = LLMGradingService None ''gpt-4''
   \<and> (\<forall>api_key model q a.
         service_grade_answer lib (LLMGradingService api_key model) q a
           = Inl (NotImplementedError ''LLM grading service not implemented''))"
  by (simp add: get_grading_service_def)

theorem get_grading_service_factory_witness:
  "get_grading_service (0::nat) (Some ''openai'') = MockGradingService 0
   \<and> get_grading_service (0::nat) (Some []) = MockGradingService 0
   \<and> service_grade_answer fit_count_lib (get_grading_service 0 (Some ''llm''))
         \<lparr>question_type = ''MCQ'', question_text = ''Pick one'', marks = 5,
          expected_answer = ''B'', grading_criteria = Map.empty\<rparr> ''B''
        = Inl (NotImplementedError ''LLM grading service not implemented'')"
proof -
  let ?q = "\<lparr>question_type = ''MCQ'', question_text = ''Pick one'', marks = 5,
          expected_answer = ''B'', grading_criteria = Map.empty\<rparr>"
  note f = get_grading_service_factory [of "0::nat" fit_count_lib]
  from f have u: "\<forall>kind. kind \<noteq> ''llm'' \<longrightarrow>
      get_grading_service (0::nat) (Some kind) = MockGradingService 0"
    by (elim conjE)
  from f have c: "get_grading_service (0::nat) (Some ''llm'') = LLMGradingService None ''gpt-4''"
    by (elim conjE)
  from f have l: "\<forall>api_key model q a.
      service_grade_answer fit_count_lib (LLMGradingService api_key model) q a
        = Inl (NotImplementedError ''LLM grading service not implemented'')"
    by (elim conjE)
  have "get_grading_service (0::nat) (Some ''openai'') = MockGradingService 0"
    using u [rule_format, of "''openai''"] by simp
  moreover have "get_grading_service (0::nat) (Some []) = MockGradingService 0"
    using u [rule_format, of "[]"] by simp
  moreover have "service_grade_answer fit_count_lib (get_grading_service 0 (Some ''llm''))
         ?q ''B'' = Inl (NotImplementedError ''LLM grading service not implemented'')"
    unfolding c using l [rule_format, of None "''gpt-4''" ?q "''B''"] .
  ultimately show ?thesis by (intro conjI)
qed

end
